theory Spec2Isabelle
  imports Main
begin

section \<open>The gateway of gateway.py\<close>

text \<open>
  The program is one FastAPI application with three handlers: \<open>root\<close>,
  \<open>health_check\<close> and \<open>gateway_proxy\<close>, over the constant table \<open>SERVICES\<close>.
  Two things of its world are parameters of the model. The backends are a function from
  the request an httpx client puts on the wire to what awaiting it gives: a response, or
  the exception httpx raises. The JSON parser of httpx is the field \<open>r_json\<close> of a
  response (\<open>None\<close> when the body does not parse). Logging is left out: it changes no
  reply. Reading the request body is taken to complete.
\<close>

subsection \<open>Values\<close>

type_synonym headers = "(string \<times> string) list"

datatype json =
    JNull
  | JBool bool
  | JNumber int
  | JString string
  | JArray "json list"
  | JObject "(string \<times> json) list"

text \<open>The exceptions the handlers can meet; all are subclasses of Python's \<open>Exception\<close>.
  \<open>TimeoutException\<close> and \<open>ConnectError\<close> are httpx's.\<close>

datatype exn =
    TimeoutException
  | ConnectError
  | AttributeError
  | JSONDecodeError
  | OtherException string

record upstream_request =
  u_method :: string
  u_url :: string
  u_headers :: headers
  u_content :: string

record upstream_response =
  r_status_code :: nat
  r_headers :: headers
  r_text :: string
  r_json :: "json option"

type_synonym backend = "upstream_request \<Rightarrow> exn + upstream_response"

text \<open>The inbound request as Starlette presents it: \<open>request.method\<close>,
  \<open>request.url.path\<close>, \<open>request.url.query\<close>, \<open>request.headers.items()\<close> (every
  header line, in order, repeated names included) and the body.\<close>

record request =
  req_method :: string
  url_path :: string
  url_query :: string
  req_headers :: headers
  req_body :: string

text \<open>What a handler hands to FastAPI: a \<open>JSONResponse\<close> it returns, or an
  \<open>HTTPException\<close> it raises, which FastAPI answers with that status.\<close>

datatype reply =
    JSONResponse json nat headers
  | HTTPException nat string

fun status_of :: "reply \<Rightarrow> nat" where
  "status_of (JSONResponse content sc hs) = sc"
| "status_of (HTTPException sc detail) = sc"

subsection \<open>Python dictionaries and strings\<close>

text \<open>A dict keeps insertion order; \<open>d[k] = v\<close> replaces the value of a key that is
  present, in place, and appends a new key.\<close>

fun dict_set :: "'k \<Rightarrow> 'v \<Rightarrow> ('k \<times> 'v) list \<Rightarrow> ('k \<times> 'v) list" where
  "dict_set k v [] = [(k, v)]"
| "dict_set k v ((k', v') # d) = (if k' = k then (k, v) # d else (k', v') # dict_set k v d)"

text \<open>The dict comprehension \<open>{k: v for k, v in items}\<close>.\<close>

fun dict_of_items :: "('k \<times> 'v) list \<Rightarrow> ('k \<times> 'v) list \<Rightarrow> ('k \<times> 'v) list" where
  "dict_of_items d [] = d"
| "dict_of_items d ((k, v) # items) = dict_of_items (dict_set k v d) items"

text \<open>\<open>str.lower()\<close> on the ASCII letters; no other character lowers to an ASCII
  letter, so the comparisons with \<open>host\<close> and \<open>connection\<close> are exact.\<close>

definition lower_char :: "char \<Rightarrow> char" where
  "lower_char c =
     (case map_of (zip ''ABCDEFGHIJKLMNOPQRSTUVWXYZ'' ''abcdefghijklmnopqrstuvwxyz'') c of
        None \<Rightarrow> c
      | Some l \<Rightarrow> l)"

definition lower :: "string \<Rightarrow> string" where
  "lower s = map lower_char s"

subsection \<open>The table of services (lines 12-16)\<close>

definition SERVICES :: "(string \<times> string) list" where
  "SERVICES =
     [(''users'', ''http://localhost:8001''),
      (''orders'', ''http://localhost:8002''),
      (''products'', ''http://localhost:8003'')]"

subsection \<open>The httpx client\<close>

text \<open>Calling a method of \<open>httpx.AsyncClient\<close> sends nothing: it returns a coroutine
  object that holds the request. Only \<open>await\<close> runs it, against the backends. The
  variable \<open>response\<close> of a handler therefore holds one of two kinds of object.\<close>

datatype response_obj =
    CoroutineObj upstream_request
  | ResponseObj upstream_response

definition client_get :: "string \<Rightarrow> response_obj" where
  "client_get url = CoroutineObj \<lparr>u_method = ''GET'', u_url = url, u_headers = [], u_content = []\<rparr>"

definition client_request :: "string \<Rightarrow> string \<Rightarrow> headers \<Rightarrow> string \<Rightarrow> response_obj" where
  "client_request m url hs content =
     CoroutineObj \<lparr>u_method = m, u_url = url, u_headers = hs, u_content = content\<rparr>"

fun await_obj :: "backend \<Rightarrow> response_obj \<Rightarrow> exn + response_obj" where
  "await_obj b (CoroutineObj rq) = (case b rq of Inl e \<Rightarrow> Inl e | Inr r \<Rightarrow> Inr (ResponseObj r))"
| "await_obj b (ResponseObj r) = Inl (OtherException ''object is not awaitable'')"

text \<open>Attribute access: a coroutine object has none of the attributes of a response.\<close>

fun attr_text :: "response_obj \<Rightarrow> exn + string" where
  "attr_text (CoroutineObj rq) = Inl AttributeError"
| "attr_text (ResponseObj r) = Inr (r_text r)"

fun call_json :: "response_obj \<Rightarrow> exn + json" where
  "call_json (CoroutineObj rq) = Inl AttributeError"
| "call_json (ResponseObj r) = (case r_json r of None \<Rightarrow> Inl JSONDecodeError | Some j \<Rightarrow> Inr j)"

fun attr_status_code :: "response_obj \<Rightarrow> exn + nat" where
  "attr_status_code (CoroutineObj rq) = Inl AttributeError"
| "attr_status_code (ResponseObj r) = Inr (r_status_code r)"

fun attr_headers :: "response_obj \<Rightarrow> exn + headers" where
  "attr_headers (CoroutineObj rq) = Inl AttributeError"
| "attr_headers (ResponseObj r) = Inr (r_headers r)"

subsection \<open>root (lines 25-30)\<close>

definition root :: json where
  "root =
     JObject [(''message'', JString ''Welcome to the API Gateway''),
              (''services'', JArray (map (\<lambda>(service_name, service_url). JString service_name) SERVICES))]"

subsection \<open>health_check (lines 32-45)\<close>

definition probe_request :: "string \<Rightarrow> upstream_request" where
  "probe_request service_url =
     \<lparr>u_method = ''GET'', u_url = service_url @ ''/health'', u_headers = [], u_content = []\<rparr>"

text \<open>The loop over \<open>SERVICES.items()\<close>; the third argument is
  \<open>health_status["services"]\<close>.\<close>

fun probe_services :: "backend \<Rightarrow> (string \<times> string) list \<Rightarrow> (string \<times> json) list \<Rightarrow> (string \<times> json) list" where
  "probe_services b [] services = services"
| "probe_services b ((service_name, service_url) # rest) services =
     probe_services b rest
       (case await_obj b (client_get (service_url @ ''/health'')) of
          Inr response \<Rightarrow> dict_set service_name (JString ''healthy'') services
        | Inl e \<Rightarrow> dict_set service_name (JString ''unhealthy'') services)"

definition health_check :: "backend \<Rightarrow> json" where
  "health_check b =
     JObject [(''gateway'', JString ''healthy''),
              (''services'', JObject (probe_services b SERVICES []))]"

subsection \<open>gateway_proxy (lines 47-87)\<close>

text \<open>Lines 53-56.\<close>

definition target_url :: "string \<Rightarrow> string \<Rightarrow> request \<Rightarrow> string" where
  "target_url service_url path request =
     (if url_query request \<noteq> [] then service_url @ ''/'' @ path @ ''?'' @ url_query request
      else service_url @ ''/'' @ path)"

text \<open>Lines 67-68.\<close>

definition forwarded_headers :: "request \<Rightarrow> headers" where
  "forwarded_headers request =
     dict_of_items []
       (filter (\<lambda>(k, v). lower k \<notin> set [''host'', ''connection'']) (req_headers request))"

text \<open>Lines 72-76: the arguments of \<open>JSONResponse\<close> are evaluated left to right, the
  condition \<open>response.text\<close> first.\<close>

definition json_response :: "response_obj \<Rightarrow> exn + reply" where
  "json_response response =
     (case attr_text response of
        Inl e \<Rightarrow> Inl e
      | Inr t \<Rightarrow>
          (case (if t \<noteq> [] then call_json response else Inr (JObject [])) of
             Inl e \<Rightarrow> Inl e
           | Inr content \<Rightarrow>
               (case attr_status_code response of
                  Inl e \<Rightarrow> Inl e
                | Inr sc \<Rightarrow>
                    (case attr_headers response of
                       Inl e \<Rightarrow> Inl e
                     | Inr hs \<Rightarrow> Inr (JSONResponse content sc hs)))))"

text \<open>Lines 77-87: the three \<open>except\<close> clauses, in order.\<close>

fun except_clauses :: "exn \<Rightarrow> reply" where
  "except_clauses TimeoutException = HTTPException 504 ''Gateway Timeout''"
| "except_clauses ConnectError = HTTPException 503 ''Service Unavailable''"
| "except_clauses e = HTTPException 500 ''Internal Gateway Error''"

text \<open>Lines 72-87 for a given value of the variable \<open>response\<close>: the
  \<open>JSONResponse\<close> the handler returns, or the reply of the \<open>except\<close> clause that
  catches what building it raised.\<close>

definition respond :: "response_obj \<Rightarrow> reply" where
  "respond response =
     (case json_response response of Inl e \<Rightarrow> except_clauses e | Inr r \<Rightarrow> r)"

text \<open>One run of the handler: its reply, the upstream requests it built (the coroutine
  objects \<open>client.request\<close> returned) and the ones it awaited, which alone reach a
  backend.\<close>

record proxy_run =
  reply :: reply
  created :: "upstream_request list"
  sent :: "upstream_request list"

text \<open>The handler. Line 64 binds \<open>response\<close> to what \<open>client.request\<close> returns,
  with no \<open>await\<close>: nothing is sent, and the backends are not consulted.\<close>

definition gateway_proxy :: "backend \<Rightarrow> string \<Rightarrow> string \<Rightarrow> request \<Rightarrow> proxy_run" where
  "gateway_proxy b service path request =
     (case map_of SERVICES service of
        None \<Rightarrow> \<lparr>reply = HTTPException 404 ''Service not found'', created = [], sent = []\<rparr>
      | Some service_url \<Rightarrow>
          (let response =
                 client_request (req_method request) (target_url service_url path request)
                   (forwarded_headers request) (req_body request)
           in \<lparr>reply = respond response,
               created = (case response of CoroutineObj rq \<Rightarrow> [rq] | ResponseObj r \<Rightarrow> []),
               sent = []\<rparr>))"

subsection \<open>The routes (lines 25, 32 and 47)\<close>

definition newline :: char where
  "newline = CHR 0x0A"

text \<open>Starlette compiles the pattern \<open>/{service}/{path:path}\<close> to the regular
  expression \<open>^/(?P<service>[^/]+)/(?P<path>.*)$\<close> and matches the request path with
  it: \<open>service\<close> is the text up to the second slash and is not empty, \<open>path\<close> is the
  rest. In Python \<open>.\<close> matches no newline and \<open>$\<close> also matches before a last
  newline.\<close>

definition match_route :: "string \<Rightarrow> (string \<times> string) option" where
  "match_route p =
     (case p of
        [] \<Rightarrow> None
      | c # cs \<Rightarrow>
          if c \<noteq> CHR ''/'' then None
          else
            (let service = takeWhile (\<lambda>x. x \<noteq> CHR ''/'') cs;
                 after = dropWhile (\<lambda>x. x \<noteq> CHR ''/'') cs
             in if service = [] then None
                else
                  (case after of
                     [] \<Rightarrow> None
                   | slash # rest \<Rightarrow>
                       (let path = takeWhile (\<lambda>x. x \<noteq> newline) rest;
                            left = dropWhile (\<lambda>x. x \<noteq> newline) rest
                        in if left = [] \<or> left = [newline] then Some (service, path) else None))))"

text \<open>A pattern without parameters, \<open>^/health$\<close>.\<close>

definition literal_route :: "string \<Rightarrow> string \<Rightarrow> bool" where
  "literal_route lit p = (p = lit \<or> p = lit @ [newline])"

definition proxy_methods :: "string list" where
  "proxy_methods = [''GET'', ''POST'', ''PUT'', ''DELETE'', ''PATCH'']"

text \<open>Where a request ends: in a handler of gateway.py, in the framework's answer 405, or
  with no route of gateway.py matching (the framework answers by itself).\<close>

datatype handled =
    ToRoot
  | ToHealthCheck
  | ToGatewayProxy string string
  | MethodNotAllowed
  | NoRoute

text \<open>Starlette's \<open>Route.matches\<close>: no match, the path alone (the method is not one of
  the route's), or both.\<close>

datatype route_match = NoMatch | Partial | Full handled

definition root_route :: "string \<Rightarrow> string \<Rightarrow> route_match" where
  "root_route m p =
     (if literal_route ''/'' p then (if m = ''GET'' then Full ToRoot else Partial) else NoMatch)"

definition health_route :: "string \<Rightarrow> string \<Rightarrow> route_match" where
  "health_route m p =
     (if literal_route ''/health'' p then (if m = ''GET'' then Full ToHealthCheck else Partial)
      else NoMatch)"

definition proxy_route :: "string \<Rightarrow> string \<Rightarrow> route_match" where
  "proxy_route m p =
     (case match_route p of
        None \<Rightarrow> NoMatch
      | Some (service, path) \<Rightarrow>
          if m \<in> set proxy_methods then Full (ToGatewayProxy service path) else Partial)"

text \<open>Starlette's router: the first route that matches path and method handles the
  request; failing that, a route that matched the path alone answers 405.\<close>

fun router :: "route_match list \<Rightarrow> bool \<Rightarrow> handled" where
  "router [] partial = (if partial then MethodNotAllowed else NoRoute)"
| "router (NoMatch # ms) partial = router ms partial"
| "router (Partial # ms) partial = router ms True"
| "router (Full h # ms) partial = h"

definition dispatch :: "string \<Rightarrow> string \<Rightarrow> handled" where
  "dispatch m p = router [root_route m p, health_route m p, proxy_route m p] False"

text \<open>Route resolution, from a request path to the target and the rewritten path: the
  pattern of line 47, then the lookups of lines 49 and 52. The table is a parameter;
  \<open>gateway_proxy\<close> uses \<open>SERVICES\<close>.\<close>

definition resolve :: "(string \<times> string) list \<Rightarrow> string \<Rightarrow> (string \<times> string) option" where
  "resolve routes p =
     (case match_route p of
        None \<Rightarrow> None
      | Some (service, path) \<Rightarrow>
          (case map_of routes service of
             None \<Rightarrow> None
           | Some service_url \<Rightarrow> Some (service_url, path)))"


subsection \<open>Reading a reply\<close>

text \<open>\<open>j[k]\<close> on a JSON object; \<open>None\<close> when \<open>j\<close> is no object or has no such key.\<close>

fun json_get :: "json \<Rightarrow> string \<Rightarrow> json option" where
  "json_get (JObject kvs) k = map_of kvs k"
| "json_get j k = None"

definition service_status :: "json \<Rightarrow> string \<Rightarrow> json option" where
  "service_status j service_name =
     (case json_get j ''services'' of None \<Rightarrow> None | Some s \<Rightarrow> json_get s service_name)"

text \<open>The shape the specification gives the aggregate health reply, in its words:
  \<open>{gatewayStatus, perService: {serviceName: {healthyCount, totalCount}}}\<close>, with an
  entry for every configured service.\<close>

definition spec_aggregate_health :: "json \<Rightarrow> bool" where
  "spec_aggregate_health j =
     (json_get j ''gatewayStatus'' \<noteq> None \<and>
      (case json_get j ''perService'' of
         None \<Rightarrow> False
       | Some per \<Rightarrow>
           list_all
             (\<lambda>(service_name, service_url).
                (case json_get per service_name of
                   None \<Rightarrow> False
                 | Some entry \<Rightarrow>
                     json_get entry ''healthyCount'' \<noteq> None \<and> json_get entry ''totalCount'' \<noteq> None))
             SERVICES))"


section \<open>Properties\<close>

lemma json_response_coroutine: "json_response (CoroutineObj rq) = Inl AttributeError"
  by (simp add: json_response_def)

lemma gateway_proxy_registered:
  assumes "map_of SERVICES service = Some service_url"
  shows "gateway_proxy b service path request =
           \<lparr>reply = HTTPException 500 ''Internal Gateway Error'',
            created = [\<lparr>u_method = req_method request,
                        u_url = target_url service_url path request,
                        u_headers = forwarded_headers request,
                        u_content = req_body request\<rparr>],
            sent = []\<rparr>"
  using assms
  by (simp add: gateway_proxy_def client_request_def respond_def json_response_coroutine)

text \<open>
  Claim C1. Whenever the first path segment names a registered service, \<open>gateway_proxy\<close>
  answers with status 500, whatever the backends would do: the request is built but never
  awaited, reading \<open>response.text\<close> on the coroutine object raises, and the last
  \<open>except\<close> clause answers.
\<close>

theorem gateway_proxy_registered_500:
  "map_of SERVICES service \<noteq> None \<Longrightarrow>
     status_of (reply (gateway_proxy b service path request)) = 500
     \<and> sent (gateway_proxy b service path request) = []"
  by (auto simp: gateway_proxy_registered)

theorem gateway_proxy_registered_500_witness:
  "map_of SERVICES ''users'' \<noteq> None
   \<and> status_of (reply (gateway_proxy
        (\<lambda>rq. Inr \<lparr>r_status_code = 200, r_headers = [], r_text = ''{}'', r_json = Some (JObject [])\<rparr>)
        ''users'' ''42''
        \<lparr>req_method = ''GET'', url_path = ''/users/42'', url_query = [], req_headers = [],
         req_body = []\<rparr>)) = 500"
proof -
  have h: "map_of SERVICES ''users'' \<noteq> None"
    by (simp add: SERVICES_def)
  show ?thesis
    using h gateway_proxy_registered_500 [OF h] by simp
qed

subsection \<open>health_check\<close>

lemma dict_set_fresh: "k \<notin> fst ` set d \<Longrightarrow> dict_set k v d = d @ [(k, v)]"
  by (induction d) auto

lemma dict_of_items_distinct:
  "distinct (map fst items) \<Longrightarrow> fst ` set d \<inter> fst ` set items = {} \<Longrightarrow>
     dict_of_items d items = d @ items"
proof (induction items arbitrary: d)
  case Nil
  then show ?case by simp
next
  case (Cons kv items)
  obtain k v where kv: "kv = (k, v)" by (cases kv)
  from Cons.prems kv have fresh: "k \<notin> fst ` set d" by auto
  from Cons.prems kv have "distinct (map fst items)"
    and "fst ` set (d @ [(k, v)]) \<inter> fst ` set items = {}" by auto
  then have "dict_of_items (d @ [(k, v)]) items = (d @ [(k, v)]) @ items"
    by (rule Cons.IH)
  with fresh kv show ?case by (simp add: dict_set_fresh)
qed

lemma probe_services_items:
  "probe_services b svcs d =
     dict_of_items d
       (map (\<lambda>(service_name, service_url).
               (service_name,
                JString (if isl (b (probe_request service_url)) then ''unhealthy'' else ''healthy'')))
          svcs)"
  by (induction svcs arbitrary: d)
     (auto simp: client_get_def probe_request_def split: sum.splits)

lemma SERVICES_distinct: "distinct (map fst SERVICES)"
  by (simp add: SERVICES_def)

lemma probe_services_SERVICES:
  "probe_services b SERVICES [] =
     map (\<lambda>(service_name, service_url).
            (service_name,
             JString (if isl (b (probe_request service_url)) then ''unhealthy'' else ''healthy'')))
       SERVICES"
proof -
  have "distinct (map fst
          (map (\<lambda>(service_name, service_url).
                  (service_name,
                   JString (if isl (b (probe_request service_url)) then ''unhealthy'' else ''healthy'')))
             SERVICES))"
    using SERVICES_distinct by (simp add: case_prod_beta comp_def)
  then show ?thesis
    by (simp only: probe_services_items) (simp add: dict_of_items_distinct)
qed

lemma service_status_health_check:
  "service_status (health_check b) service_name =
     map_of (probe_services b SERVICES []) service_name"
  by (simp add: service_status_def health_check_def)

text \<open>
  Claim C10. \<open>health_check\<close> reports a service healthy exactly when awaiting the probe
  \<open>GET {service_url}/health\<close> raises nothing; the status code of the probe's response
  is never read, so a backend that answers its health path with 500 is reported healthy.
\<close>

theorem health_check_ignores_status:
  "(service_name, service_url) \<in> set SERVICES \<Longrightarrow>
     service_status (health_check b) service_name =
       Some (JString (if isl (b (probe_request service_url)) then ''unhealthy'' else ''healthy''))"
proof -
  assume "(service_name, service_url) \<in> set SERVICES"
  then have "map_of SERVICES service_name = Some service_url"
    using SERVICES_distinct by simp
  then show ?thesis
    by (simp only: service_status_health_check probe_services_SERVICES)
       (simp add: map_of_map case_prod_beta comp_def map_of_map_restrict)
qed

theorem health_check_ignores_status_witness:
  "(''orders'', ''http://localhost:8002'') \<in> set SERVICES
   \<and> service_status
        (health_check
           (\<lambda>rq. Inr \<lparr>r_status_code = 500, r_headers = [], r_text = ''down'', r_json = None\<rparr>))
        ''orders'' = Some (JString ''healthy'')"
proof -
  have h: "(''orders'', ''http://localhost:8002'') \<in> set SERVICES"
    by (simp add: SERVICES_def)
  show ?thesis
    using h
      health_check_ignores_status [OF h,
        of "\<lambda>rq. Inr \<lparr>r_status_code = 500, r_headers = [], r_text = ''down'', r_json = None\<rparr>"]
    by simp
qed

text \<open>
  Claim C8, as the code has it. The health endpoint returns the object
  \<open>{"gateway": "healthy", "services": {name: "healthy" | "unhealthy"}}\<close>: one string
  for every configured service, in the order of the table, and the field \<open>gateway\<close>,
  which is always \<open>healthy\<close>. There are no counts and no field \<open>gatewayStatus\<close>.
\<close>

theorem health_check_shape:
  "health_check b =
     JObject
       [(''gateway'', JString ''healthy''),
        (''services'',
         JObject
           (map (\<lambda>(service_name, service_url).
                   (service_name,
                    JString (if isl (b (probe_request service_url)) then ''unhealthy'' else ''healthy'')))
              SERVICES))]"
  by (simp only: health_check_def probe_services_SERVICES)

text \<open>The reply of \<open>health_check\<close> with every backend answering 200 has not the shape
  \<open>{gatewayStatus, perService: {serviceName: {healthyCount, totalCount}}}\<close>.\<close>

theorem health_check_shape_counterexample:
  "\<not> spec_aggregate_health
        (health_check
           (\<lambda>rq. Inr \<lparr>r_status_code = 200, r_headers = [], r_text = ''ok'', r_json = None\<rparr>))"
  by (simp add: spec_aggregate_health_def health_check_def)

subsection \<open>Routing\<close>

lemma match_route_split:
  assumes "service \<noteq> []" and "CHR ''/'' \<notin> set service" and "newline \<notin> set rest"
  shows "match_route (CHR ''/'' # service @ CHR ''/'' # rest) = Some (service, rest)"
proof -
  have t: "takeWhile (\<lambda>x. x \<noteq> CHR ''/'') (service @ CHR ''/'' # rest) = service"
    using assms(2) by (subst takeWhile_append2) auto
  have d: "dropWhile (\<lambda>x. x \<noteq> CHR ''/'') (service @ CHR ''/'' # rest) = CHR ''/'' # rest"
    using assms(2) by (subst dropWhile_append2) auto
  have t': "takeWhile (\<lambda>x. x \<noteq> newline) rest = rest"
    using assms(3) by (simp add: takeWhile_eq_all_conv) metis
  have d': "dropWhile (\<lambda>x. x \<noteq> newline) rest = []"
    using assms(3) by (simp add: dropWhile_eq_Nil_conv) metis
  show ?thesis
    using assms(1) assms(3) by (simp add: match_route_def t d t' d')
qed

lemma literal_route_no_second_slash:
  assumes "CHR ''/'' \<notin> set lit" and "newline \<noteq> CHR ''/''"
  shows "\<not> literal_route (CHR ''/'' # lit) (CHR ''/'' # service @ CHR ''/'' # rest)"
proof
  assume "literal_route (CHR ''/'' # lit) (CHR ''/'' # service @ CHR ''/'' # rest)"
  then have "service @ CHR ''/'' # rest = lit \<or> service @ CHR ''/'' # rest = lit @ [newline]"
    by (simp add: literal_route_def)
  moreover have "CHR ''/'' \<in> set (service @ CHR ''/'' # rest)"
    by simp
  ultimately have "CHR ''/'' \<in> set lit \<or> CHR ''/'' \<in> set (lit @ [newline])"
    by metis
  with assms show False by auto
qed

lemma other_routes_no_match:
  "root_route m (CHR ''/'' # service @ CHR ''/'' # rest) = NoMatch"
  "health_route m (CHR ''/'' # service @ CHR ''/'' # rest) = NoMatch"
proof -
  have n: "newline \<noteq> CHR ''/''"
    by (simp add: newline_def)
  have "\<not> literal_route (CHR ''/'' # []) (CHR ''/'' # service @ CHR ''/'' # rest)"
    by (rule literal_route_no_second_slash) (simp_all add: n)
  then show "root_route m (CHR ''/'' # service @ CHR ''/'' # rest) = NoMatch"
    by (simp add: root_route_def)
  have "\<not> literal_route (CHR ''/'' # ''health'') (CHR ''/'' # service @ CHR ''/'' # rest)"
    by (rule literal_route_no_second_slash) (simp_all add: n)
  then show "health_route m (CHR ''/'' # service @ CHR ''/'' # rest) = NoMatch"
    by (simp add: health_route_def)
qed

lemma router_full_is_member:
  "router ms partial = ToGatewayProxy service path \<Longrightarrow> Full (ToGatewayProxy service path) \<in> set ms"
  by (induction ms partial rule: router.induct) (auto split: if_splits)

lemma match_route_split_newline:
  assumes "service \<noteq> []" and "CHR ''/'' \<notin> set service" and "newline \<notin> set rest"
  shows "match_route (CHR ''/'' # service @ CHR ''/'' # rest @ [newline]) = Some (service, rest)"
proof -
  have t: "takeWhile (\<lambda>x. x \<noteq> CHR ''/'') (service @ CHR ''/'' # rest @ [newline]) = service"
    using assms(2) by (subst takeWhile_append2) auto
  have d: "dropWhile (\<lambda>x. x \<noteq> CHR ''/'') (service @ CHR ''/'' # rest @ [newline])
             = CHR ''/'' # rest @ [newline]"
    using assms(2) by (subst dropWhile_append2) auto
  have t': "takeWhile (\<lambda>x. x \<noteq> newline) (rest @ [newline]) = rest"
    using assms(3) by (subst takeWhile_append2) auto
  have d': "dropWhile (\<lambda>x. x \<noteq> newline) (rest @ [newline]) = [newline]"
    using assms(3) by (subst dropWhile_append2) auto
  show ?thesis
    using assms(1) by (simp add: match_route_def t d t' d')
qed

lemma match_route_SomeD:
  assumes "match_route p = Some (service, rest)"
  shows "service \<noteq> [] \<and> CHR ''/'' \<notin> set service \<and> newline \<notin> set rest
         \<and> (p = CHR ''/'' # service @ CHR ''/'' # rest
            \<or> p = CHR ''/'' # service @ CHR ''/'' # rest @ [newline])"
proof -
  from assms obtain cs where p: "p = CHR ''/'' # cs"
    by (cases p) (auto simp: match_route_def split: if_splits)
  define after where "after = dropWhile (\<lambda>x. x \<noteq> CHR ''/'') cs"
  from assms p have s: "service = takeWhile (\<lambda>x. x \<noteq> CHR ''/'') cs" and ne: "service \<noteq> []"
    by (auto simp: match_route_def Let_def split: if_splits list.splits)
  from assms p obtain slash tl where a: "after = slash # tl"
    by (cases after) (auto simp: match_route_def Let_def after_def split: if_splits list.splits)
  from assms p a have r: "rest = takeWhile (\<lambda>x. x \<noteq> newline) tl"
    and l: "dropWhile (\<lambda>x. x \<noteq> newline) tl = [] \<or> dropWhile (\<lambda>x. x \<noteq> newline) tl = [newline]"
    by (auto simp: match_route_def Let_def after_def split: if_splits list.splits)
  have "after \<noteq> []" using a by simp
  then have "\<not> (hd after \<noteq> CHR ''/'')"
    unfolding after_def by (rule hd_dropWhile)
  with a have slash: "slash = CHR ''/''" by simp
  have "cs = takeWhile (\<lambda>x. x \<noteq> CHR ''/'') cs @ after"
    unfolding after_def by (rule takeWhile_dropWhile_id [symmetric])
  then have cs: "cs = service @ CHR ''/'' # tl"
    unfolding a slash s [symmetric] .
  have "tl = takeWhile (\<lambda>x. x \<noteq> newline) tl @ dropWhile (\<lambda>x. x \<noteq> newline) tl"
    by (rule takeWhile_dropWhile_id [symmetric])
  then have tl: "tl = rest @ dropWhile (\<lambda>x. x \<noteq> newline) tl"
    unfolding r [symmetric] .
  have "CHR ''/'' \<notin> set service"
    using s by (auto dest: set_takeWhileD)
  moreover have "newline \<notin> set rest"
    using r by (auto dest: set_takeWhileD)
  moreover have "p = CHR ''/'' # service @ CHR ''/'' # rest
                 \<or> p = CHR ''/'' # service @ CHR ''/'' # rest @ [newline]"
    using l
  proof
    assume "dropWhile (\<lambda>x. x \<noteq> newline) tl = []"
    with tl have "tl = rest" by simp
    with p cs show ?thesis by simp
  next
    assume "dropWhile (\<lambda>x. x \<noteq> newline) tl = [newline]"
    with tl have "tl = rest @ [newline]" by simp
    with p cs show ?thesis by simp
  qed
  ultimately show ?thesis using ne by simp
qed

lemma match_route_iff:
  "match_route p = Some (service, rest) \<longleftrightarrow>
     service \<noteq> [] \<and> CHR ''/'' \<notin> set service \<and> newline \<notin> set rest
     \<and> (p = CHR ''/'' # service @ CHR ''/'' # rest
        \<or> p = CHR ''/'' # service @ CHR ''/'' # rest @ [newline])"
  using match_route_SomeD [of p service rest]
    match_route_split [of service rest] match_route_split_newline [of service rest]
  by auto

text \<open>
  Claim C3, as the code has it. Resolution is no longest-prefix match: the first path
  segment alone is looked up, as a whole, in the table. For a path \<open>/service/rest\<close>,
  with \<open>service\<close> not empty and without a slash and \<open>rest\<close> without a line feed, the
  result is the table's entry for \<open>service\<close> with the rewritten path \<open>rest\<close> (the
  segment and the slashes around it stripped), and nothing is found when \<open>service\<close> is
  no key of the table. For every table and every path, a target and a rewritten path are
  found exactly when the path has this form, one line feed at its end allowed and
  dropped, and the table gives \<open>service\<close> that target.
\<close>

theorem resolve_first_segment:
  "(service \<noteq> [] \<and> CHR ''/'' \<notin> set service \<and> newline \<notin> set rest \<longrightarrow>
      resolve routes (CHR ''/'' # service @ CHR ''/'' # rest) =
        (case map_of routes service of None \<Rightarrow> None | Some service_url \<Rightarrow> Some (service_url, rest)))
   \<and> (resolve routes p = Some (target, path) \<longleftrightarrow>
        (\<exists>name. map_of routes name = Some target
           \<and> name \<noteq> [] \<and> CHR ''/'' \<notin> set name \<and> newline \<notin> set path
           \<and> (p = CHR ''/'' # name @ CHR ''/'' # path
              \<or> p = CHR ''/'' # name @ CHR ''/'' # path @ [newline])))"
proof (intro conjI impI)
  assume "service \<noteq> [] \<and> CHR ''/'' \<notin> set service \<and> newline \<notin> set rest"
  then show "resolve routes (CHR ''/'' # service @ CHR ''/'' # rest) =
        (case map_of routes service of None \<Rightarrow> None | Some service_url \<Rightarrow> Some (service_url, rest))"
    by (simp add: resolve_def match_route_split)
next
  have "resolve routes p = Some (target, path) \<longleftrightarrow>
          (\<exists>name. match_route p = Some (name, path) \<and> map_of routes name = Some target)"
    by (auto simp: resolve_def split: option.splits)
  then show "resolve routes p = Some (target, path) \<longleftrightarrow>
        (\<exists>name. map_of routes name = Some target
           \<and> name \<noteq> [] \<and> CHR ''/'' \<notin> set name \<and> newline \<notin> set path
           \<and> (p = CHR ''/'' # name @ CHR ''/'' # path
              \<or> p = CHR ''/'' # name @ CHR ''/'' # path @ [newline]))"
    unfolding match_route_iff by blast
qed

theorem resolve_first_segment_witness:
  "''users'' \<noteq> [] \<and> CHR ''/'' \<notin> set ''users'' \<and> newline \<notin> set ''admin/42''
   \<and> resolve SERVICES ''/users/admin/42'' = Some (''http://localhost:8001'', ''admin/42'')"
proof -
  have h1: "''users'' \<noteq> []" and h2: "CHR ''/'' \<notin> set ''users''"
    and h3: "newline \<notin> set ''admin/42''"
    by (simp_all add: newline_def)
  show ?thesis
    using h1 h2 h3 resolve_first_segment [of "''users''" "''admin/42''" SERVICES]
    by (simp add: SERVICES_def)
qed

text \<open>With the routes of the specification's scenario the path \<open>/users/admin/42\<close> goes
  to \<open>users-svc\<close> with the rewritten path \<open>admin/42\<close>, not to \<open>users-admin-svc\<close> with
  \<open>/42\<close>; with the keys written as prefixes, nothing is found.\<close>

theorem resolve_longest_prefix_counterexample:
  "resolve [(''users'', ''users-svc''), (''users/admin'', ''users-admin-svc'')] ''/users/admin/42''
     = Some (''users-svc'', ''admin/42'')
   \<and> resolve [(''users'', ''users-svc''), (''users/admin'', ''users-admin-svc'')] ''/users/admin/42''
     \<noteq> Some (''users-admin-svc'', ''/42'')
   \<and> resolve [(''/users'', ''users-svc''), (''/users/admin'', ''users-admin-svc'')] ''/users/admin/42''
     = None"
  by (simp add: resolve_def match_route_def newline_def)

text \<open>
  Claim C9, as the code has it. A request reaches \<open>gateway_proxy\<close> exactly when its
  method is GET, POST, PUT, DELETE or PATCH and its path has the form \<open>/service/rest\<close>,
  with \<open>service\<close> not empty and without a slash and \<open>rest\<close> without a line feed (one
  line feed at the end of the path is allowed and dropped). On a path of this form every
  other method, HEAD and OPTIONS included, is answered 405 without running any handler.
\<close>

theorem dispatch_proxy_methods:
  "(service \<noteq> [] \<and> CHR ''/'' \<notin> set service \<and> newline \<notin> set rest \<longrightarrow>
      dispatch m (CHR ''/'' # service @ CHR ''/'' # rest) =
        (if m \<in> set [''GET'', ''POST'', ''PUT'', ''DELETE'', ''PATCH'']
         then ToGatewayProxy service rest else MethodNotAllowed))
   \<and> (dispatch m p = ToGatewayProxy service rest \<longleftrightarrow>
        m \<in> set [''GET'', ''POST'', ''PUT'', ''DELETE'', ''PATCH'']
        \<and> service \<noteq> [] \<and> CHR ''/'' \<notin> set service \<and> newline \<notin> set rest
        \<and> (p = CHR ''/'' # service @ CHR ''/'' # rest
           \<or> p = CHR ''/'' # service @ CHR ''/'' # rest @ [newline]))"
proof (intro conjI impI)
  assume "service \<noteq> [] \<and> CHR ''/'' \<notin> set service \<and> newline \<notin> set rest"
  then have "match_route (CHR ''/'' # service @ CHR ''/'' # rest) = Some (service, rest)"
    by (simp add: match_route_split)
  then show "dispatch m (CHR ''/'' # service @ CHR ''/'' # rest) =
        (if m \<in> set [''GET'', ''POST'', ''PUT'', ''DELETE'', ''PATCH'']
         then ToGatewayProxy service rest else MethodNotAllowed)"
    by (simp add: dispatch_def other_routes_no_match proxy_route_def proxy_methods_def)
next
  show "dispatch m p = ToGatewayProxy service rest \<longleftrightarrow>
        m \<in> set [''GET'', ''POST'', ''PUT'', ''DELETE'', ''PATCH'']
        \<and> service \<noteq> [] \<and> CHR ''/'' \<notin> set service \<and> newline \<notin> set rest
        \<and> (p = CHR ''/'' # service @ CHR ''/'' # rest
           \<or> p = CHR ''/'' # service @ CHR ''/'' # rest @ [newline])"
  proof
    assume "dispatch m p = ToGatewayProxy service rest"
    then have "Full (ToGatewayProxy service rest)
                 \<in> set [root_route m p, health_route m p, proxy_route m p]"
      unfolding dispatch_def by (rule router_full_is_member)
    then have "proxy_route m p = Full (ToGatewayProxy service rest)"
      by (auto simp: root_route_def health_route_def split: if_splits)
    then have "m \<in> set proxy_methods \<and> match_route p = Some (service, rest)"
      by (auto simp: proxy_route_def split: option.splits if_splits)
    then show "m \<in> set [''GET'', ''POST'', ''PUT'', ''DELETE'', ''PATCH'']
        \<and> service \<noteq> [] \<and> CHR ''/'' \<notin> set service \<and> newline \<notin> set rest
        \<and> (p = CHR ''/'' # service @ CHR ''/'' # rest
           \<or> p = CHR ''/'' # service @ CHR ''/'' # rest @ [newline])"
      by (simp add: proxy_methods_def match_route_iff)
  next
    assume r: "m \<in> set [''GET'', ''POST'', ''PUT'', ''DELETE'', ''PATCH'']
        \<and> service \<noteq> [] \<and> CHR ''/'' \<notin> set service \<and> newline \<notin> set rest
        \<and> (p = CHR ''/'' # service @ CHR ''/'' # rest
           \<or> p = CHR ''/'' # service @ CHR ''/'' # rest @ [newline])"
    then have mr: "match_route p = Some (service, rest)"
      by (simp add: match_route_iff)
    from r obtain tl where "p = CHR ''/'' # service @ CHR ''/'' # tl"
      by auto
    then have "root_route m p = NoMatch" and "health_route m p = NoMatch"
      by (simp_all add: other_routes_no_match)
    with r mr show "dispatch m p = ToGatewayProxy service rest"
      by (simp add: dispatch_def proxy_route_def proxy_methods_def)
  qed
qed

theorem dispatch_proxy_methods_witness:
  "(''users'' \<noteq> [] \<and> CHR ''/'' \<notin> set ''users'' \<and> newline \<notin> set ''42'')
   \<and> dispatch ''PATCH'' ''/users/42'' = ToGatewayProxy ''users'' ''42''
   \<and> ''PATCH'' \<in> set [''GET'', ''POST'', ''PUT'', ''DELETE'', ''PATCH'']"
proof -
  have h: "''users'' \<noteq> [] \<and> CHR ''/'' \<notin> set ''users'' \<and> newline \<notin> set ''42''"
    by (simp add: newline_def)
  have d: "dispatch ''PATCH'' ''/users/42'' = ToGatewayProxy ''users'' ''42''"
    using h dispatch_proxy_methods [of "''users''" "''42''" "''PATCH''"] by simp
  show ?thesis
    using h d dispatch_proxy_methods [of "''users''" "''42''" "''PATCH''" "''/users/42''"]
    by simp
qed

text \<open>OPTIONS and HEAD on a proxied path are rejected, not routed to the handler.\<close>

theorem dispatch_any_method_counterexample:
  "dispatch ''OPTIONS'' ''/users/42'' = MethodNotAllowed
   \<and> dispatch ''HEAD'' ''/users/42'' = MethodNotAllowed"
  by (simp add: dispatch_def root_route_def health_route_def proxy_route_def match_route_def
      literal_route_def proxy_methods_def newline_def)

subsection \<open>The request gateway_proxy builds\<close>

lemma map_of_dict_set: "map_of (dict_set k v d) a = (if a = k then Some v else map_of d a)"
  by (induction d) auto

lemma map_of_dict_of_items:
  "map_of (dict_of_items d items) a =
     (case map_of (rev items) a of None \<Rightarrow> map_of d a | Some v \<Rightarrow> Some v)"
proof (induction items arbitrary: d)
  case Nil
  then show ?case by simp
next
  case (Cons kv items)
  obtain k v where kv: "kv = (k, v)" by (cases kv)
  have "map_of (rev (kv # items)) a =
          (case map_of (rev items) a of None \<Rightarrow> (if a = k then Some v else None) | Some w \<Rightarrow> Some w)"
    by (auto simp: kv map_add_def split: option.splits)
  moreover have "map_of (dict_of_items d (kv # items)) a =
          (case map_of (rev items) a of None \<Rightarrow> map_of (dict_set k v d) a | Some w \<Rightarrow> Some w)"
    by (simp add: kv Cons.IH)
  ultimately show ?case
    by (simp add: map_of_dict_set split: option.splits)
qed

lemma map_of_filter_name:
  "map_of (filter (\<lambda>(k, v). lower k \<notin> set [''host'', ''connection'']) hs) a =
     (if lower a = ''host'' \<or> lower a = ''connection'' then None else map_of hs a)"
  by (induction hs) auto

lemma forwarded_headers_last_value:
  "map_of (forwarded_headers request) a =
     (if lower a = ''host'' \<or> lower a = ''connection'' then None
      else map_of (rev (req_headers request)) a)"
proof -
  have "map_of (forwarded_headers request) a =
          map_of (rev (filter (\<lambda>(k, v). lower k \<notin> set [''host'', ''connection''])
                         (req_headers request))) a"
    unfolding forwarded_headers_def map_of_dict_of_items
    by (simp split: option.splits)
  also have "\<dots> = map_of (filter (\<lambda>(k, v). lower k \<notin> set [''host'', ''connection''])
                         (rev (req_headers request))) a"
    by (simp only: rev_filter)
  also have "\<dots> = (if lower a = ''host'' \<or> lower a = ''connection'' then None
                   else map_of (rev (req_headers request)) a)"
    by (rule map_of_filter_name)
  finally show ?thesis .
qed

lemma forwarded_headers_distinct:
  assumes "distinct (map fst (req_headers request))"
  shows "forwarded_headers request =
           filter (\<lambda>(k, v). lower k \<noteq> ''host'' \<and> lower k \<noteq> ''connection'') (req_headers request)"
proof -
  have "distinct (map fst
          (filter (\<lambda>(k, v). lower k \<notin> set [''host'', ''connection'']) (req_headers request)))"
    using assms by (rule distinct_map_filter)
  then have "forwarded_headers request =
               filter (\<lambda>(k, v). lower k \<notin> set [''host'', ''connection'']) (req_headers request)"
    by (simp add: forwarded_headers_def dict_of_items_distinct)
  then show ?thesis by simp
qed



text \<open>
  Claim C4, as the code has it. For a request to a registered service whose header names
  are pairwise distinct, the upstream request the gateway builds carries the request's
  headers unchanged and in order, except those whose name is, in any letter case, Host or
  Connection; these two are dropped and no other header is (Keep-Alive, TE, Upgrade and
  the other hop-by-hop headers are passed on). Method and body are passed on as they are.
\<close>

theorem gateway_proxy_headers:
  "map_of SERVICES service = Some service_url \<Longrightarrow> distinct (map fst (req_headers request)) \<Longrightarrow>
     created (gateway_proxy b service path request) =
       [\<lparr>u_method = req_method request,
         u_url = target_url service_url path request,
         u_headers =
           filter (\<lambda>(k, v). lower k \<noteq> ''host'' \<and> lower k \<noteq> ''connection'') (req_headers request),
         u_content = req_body request\<rparr>]"
  by (simp add: gateway_proxy_registered forwarded_headers_distinct)

theorem gateway_proxy_headers_witness:
  "map_of SERVICES ''users'' = Some ''http://localhost:8001''
   \<and> distinct (map fst [(''Host'', ''gateway''), (''accept'', ''text/plain''), (''te'', ''trailers'')])
   \<and> created (gateway_proxy (\<lambda>rq. Inl ConnectError) ''users'' ''42''
        \<lparr>req_method = ''GET'', url_path = ''/users/42'', url_query = [],
         req_headers = [(''Host'', ''gateway''), (''accept'', ''text/plain''), (''te'', ''trailers'')],
         req_body = []\<rparr>) =
       [\<lparr>u_method = ''GET'', u_url = ''http://localhost:8001/42'',
         u_headers = [(''accept'', ''text/plain''), (''te'', ''trailers'')],
         u_content = []\<rparr>]"
proof -
  have h1: "map_of SERVICES ''users'' = Some ''http://localhost:8001''"
    by (simp add: SERVICES_def)
  have h2: "distinct (map fst (req_headers
              \<lparr>req_method = ''GET'', url_path = ''/users/42'', url_query = [],
               req_headers = [(''Host'', ''gateway''), (''accept'', ''text/plain''), (''te'', ''trailers'')],
               req_body = []\<rparr>))"
    by simp
  show ?thesis
    using h1 gateway_proxy_headers [OF h1 h2, of "\<lambda>rq. Inl ConnectError" "''42''"]
    by (simp add: target_url_def lower_def lower_char_def)
qed

text \<open>A request with the headers Keep-Alive and Upgrade: both are passed on to the
  upstream request, only Host is dropped.\<close>

theorem gateway_proxy_headers_counterexample:
  "map u_headers
     (created (gateway_proxy (\<lambda>rq. Inl ConnectError) ''users'' ''42''
        \<lparr>req_method = ''GET'', url_path = ''/users/42'', url_query = [],
         req_headers = [(''host'', ''gateway''), (''keep-alive'', ''timeout=5''),
                        (''upgrade'', ''websocket'')],
         req_body = []\<rparr>))
   = [[(''keep-alive'', ''timeout=5''), (''upgrade'', ''websocket'')]]"
  by (simp add: gateway_proxy_def SERVICES_def client_request_def forwarded_headers_def
      lower_def lower_char_def)




subsection \<open>Failures, retries and statuses\<close>

text \<open>
  Claim C7, as the code has it. There is no retry and no second endpoint: the table gives
  every service one URL, and for a request to a registered service (GET or any other
  method) the gateway builds exactly one upstream request, for that URL, and hands the
  caller exactly one reply; nothing is sent that was not built.
\<close>

theorem gateway_proxy_one_attempt:
  "map_of SERVICES service = Some service_url \<Longrightarrow>
     length (created (gateway_proxy b service path request)) = 1
     \<and> map u_url (created (gateway_proxy b service path request)) =
         [target_url service_url path request]
     \<and> map u_method (created (gateway_proxy b service path request)) = [req_method request]
     \<and> set (sent (gateway_proxy b service path request))
         \<subseteq> set (created (gateway_proxy b service path request))"
  by (simp add: gateway_proxy_registered)

theorem gateway_proxy_one_attempt_witness:
  "map_of SERVICES ''users'' = Some ''http://localhost:8001''
   \<and> length (created (gateway_proxy (\<lambda>rq. Inl ConnectError) ''users'' ''42''
        \<lparr>req_method = ''GET'', url_path = ''/users/42'', url_query = [], req_headers = [],
         req_body = []\<rparr>)) = 1
   \<and> map u_url (created (gateway_proxy (\<lambda>rq. Inl ConnectError) ''users'' ''42''
        \<lparr>req_method = ''GET'', url_path = ''/users/42'', url_query = [], req_headers = [],
         req_body = []\<rparr>)) = [''http://localhost:8001/42'']"
proof -
  have h: "map_of SERVICES ''users'' = Some ''http://localhost:8001''"
    by (simp add: SERVICES_def)
  show ?thesis
    using h gateway_proxy_one_attempt [OF h, of "\<lambda>rq. Inl ConnectError" "''42''"
        "\<lparr>req_method = ''GET'', url_path = ''/users/42'', url_query = [], req_headers = [],
          req_body = []\<rparr>"]
    by (simp add: target_url_def)
qed

text \<open>A GET request for \<open>users\<close> while \<open>http://localhost:8001\<close> refuses connections and
  every other address answers 200: one upstream request is built, for the refused
  address, none for another endpoint, and the caller gets 500.\<close>

theorem gateway_proxy_retry_counterexample:
  "created (gateway_proxy
      (\<lambda>rq. if take 21 (u_url rq) = ''http://localhost:8001'' then Inl ConnectError
             else Inr \<lparr>r_status_code = 200, r_headers = [], r_text = ''{}'', r_json = Some (JObject [])\<rparr>)
      ''users'' ''42''
      \<lparr>req_method = ''GET'', url_path = ''/users/42'', url_query = [], req_headers = [],
       req_body = []\<rparr>)
     = [\<lparr>u_method = ''GET'', u_url = ''http://localhost:8001/42'', u_headers = [], u_content = []\<rparr>]
   \<and> sent (gateway_proxy
      (\<lambda>rq. if take 21 (u_url rq) = ''http://localhost:8001'' then Inl ConnectError
             else Inr \<lparr>r_status_code = 200, r_headers = [], r_text = ''{}'', r_json = Some (JObject [])\<rparr>)
      ''users'' ''42''
      \<lparr>req_method = ''GET'', url_path = ''/users/42'', url_query = [], req_headers = [],
       req_body = []\<rparr>) = []
   \<and> reply (gateway_proxy
      (\<lambda>rq. if take 21 (u_url rq) = ''http://localhost:8001'' then Inl ConnectError
             else Inr \<lparr>r_status_code = 200, r_headers = [], r_text = ''{}'', r_json = Some (JObject [])\<rparr>)
      ''users'' ''42''
      \<lparr>req_method = ''GET'', url_path = ''/users/42'', url_query = [], req_headers = [],
       req_body = []\<rparr>) = HTTPException 500 ''Internal Gateway Error''"
  by (simp add: gateway_proxy_def SERVICES_def client_request_def respond_def json_response_def
      target_url_def forwarded_headers_def)

text \<open>
  Claim C6, at a failing input. A POST request for \<open>users\<close> while every upstream
  attempt would time out: nothing is sent and nothing is retried, but the reply is 500,
  not 504. The request of line 64 is never awaited, so the timeout never reaches the
  clause of line 77.
\<close>

theorem gateway_proxy_post_timeout:
  "reply (gateway_proxy (\<lambda>rq. Inl TimeoutException) ''users'' ''42''
      \<lparr>req_method = ''POST'', url_path = ''/users/42'', url_query = [],
       req_headers = [(''content-type'', ''application/json'')], req_body = ''{}''\<rparr>)
     = HTTPException 500 ''Internal Gateway Error''
   \<and> sent (gateway_proxy (\<lambda>rq. Inl TimeoutException) ''users'' ''42''
      \<lparr>req_method = ''POST'', url_path = ''/users/42'', url_query = [],
       req_headers = [(''content-type'', ''application/json'')], req_body = ''{}''\<rparr>) = []
   \<and> except_clauses TimeoutException = HTTPException 504 ''Gateway Timeout''"
  by (simp add: gateway_proxy_def SERVICES_def client_request_def respond_def json_response_def)

lemma respond_malformed:
  "r_text r \<noteq> [] \<Longrightarrow> r_json r = None \<Longrightarrow>
     respond (ResponseObj r) = HTTPException 500 ''Internal Gateway Error''"
  by (simp add: respond_def json_response_def)

lemma except_clauses_status: "status_of (except_clauses e) \<in> {500, 503, 504}"
  by (cases e) simp_all

lemma respond_raises_no_502: "respond response = HTTPException sc detail \<Longrightarrow> sc \<noteq> 502"
proof -
  assume r: "respond response = HTTPException sc detail"
  show "sc \<noteq> 502"
  proof (cases "json_response response")
    case (Inl e)
    with r have "status_of (except_clauses e) = sc"
      by (simp add: respond_def)
    with except_clauses_status [of e] show ?thesis by auto
  next
    case (Inr x)
    with r have "json_response response = Inr (HTTPException sc detail)"
      by (simp add: respond_def)
    then show ?thesis
      by (auto simp: json_response_def split: sum.splits if_splits)
  qed
qed

text \<open>
  Claim C2, as the code has it. A path that names no registered service is answered 404.
  The gateway has no status 502: no error reply the handler raises itself carries it, and
  lines 72-87, given an upstream response whose body is not empty and does not parse as
  JSON, answer 500, the JSON decode error falling to the last \<open>except\<close> clause.
\<close>

theorem gateway_proxy_statuses:
  "(map_of SERVICES service = None \<longrightarrow>
      reply (gateway_proxy b service path request) = HTTPException 404 ''Service not found'')
   \<and> (r_text r \<noteq> [] \<and> r_json r = None \<longrightarrow>
        respond (ResponseObj r) = HTTPException 500 ''Internal Gateway Error'')
   \<and> (respond response = HTTPException sc detail \<longrightarrow> sc \<noteq> 502)
   \<and> (reply (gateway_proxy b service path request) = HTTPException sc detail \<longrightarrow> sc \<noteq> 502)"
proof (intro conjI impI)
  assume "map_of SERVICES service = None"
  then show "reply (gateway_proxy b service path request) = HTTPException 404 ''Service not found''"
    by (simp add: gateway_proxy_def)
next
  assume "r_text r \<noteq> [] \<and> r_json r = None"
  then show "respond (ResponseObj r) = HTTPException 500 ''Internal Gateway Error''"
    by (simp add: respond_malformed)
next
  assume "respond response = HTTPException sc detail"
  then show "sc \<noteq> 502" by (rule respond_raises_no_502)
next
  assume r: "reply (gateway_proxy b service path request) = HTTPException sc detail"
  show "sc \<noteq> 502"
  proof (cases "map_of SERVICES service")
    case None
    with r show ?thesis by (simp add: gateway_proxy_def)
  next
    case (Some service_url)
    with r have "respond (client_request (req_method request)
                   (target_url service_url path request) (forwarded_headers request)
                   (req_body request)) = HTTPException sc detail"
      by (simp add: gateway_proxy_def Let_def)
    then show ?thesis by (rule respond_raises_no_502)
  qed
qed

theorem gateway_proxy_statuses_witness:
  "map_of SERVICES ''billing'' = None
   \<and> reply (gateway_proxy (\<lambda>rq. Inl ConnectError) ''billing'' ''42''
        \<lparr>req_method = ''GET'', url_path = ''/billing/42'', url_query = [], req_headers = [],
         req_body = []\<rparr>) = HTTPException 404 ''Service not found''
   \<and> (404::nat) \<noteq> 502
   \<and> respond (ResponseObj \<lparr>r_status_code = 200, r_headers = [], r_text = ''<html>'', r_json = None\<rparr>)
       = HTTPException 500 ''Internal Gateway Error''
   \<and> (500::nat) \<noteq> 502"
proof -
  have h: "map_of SERVICES ''billing'' = None"
    by (simp add: SERVICES_def)
  have t: "r_text \<lparr>r_status_code = 200, r_headers = [], r_text = ''<html>'', r_json = None\<rparr> \<noteq> []
           \<and> r_json \<lparr>r_status_code = 200, r_headers = [], r_text = ''<html>'', r_json = None\<rparr> = None"
    by simp
  show ?thesis
    using h t gateway_proxy_statuses [of "''billing''" "\<lambda>rq. Inl ConnectError" "''42''"
        "\<lparr>req_method = ''GET'', url_path = ''/billing/42'', url_query = [], req_headers = [],
          req_body = []\<rparr>"
        "\<lparr>r_status_code = 200, r_headers = [], r_text = ''<html>'', r_json = None\<rparr>"
        "ResponseObj \<lparr>r_status_code = 200, r_headers = [], r_text = ''<html>'', r_json = None\<rparr>"
        500 "''Internal Gateway Error''"]
    by simp
qed

text \<open>An upstream that answers the request for \<open>users\<close> with a body that is no JSON.
  The reply is 500, not 502. The response that awaiting the built request gives is
  answered 500 by lines 72-87 as well: the status is that of the last \<open>except\<close> clause,
  which catches the JSON decode error.\<close>

theorem gateway_proxy_malformed_counterexample:
  "status_of (reply (gateway_proxy
      (\<lambda>rq. Inr \<lparr>r_status_code = 200, r_headers = [], r_text = ''<html>'', r_json = None\<rparr>)
      ''users'' ''42''
      \<lparr>req_method = ''GET'', url_path = ''/users/42'', url_query = [], req_headers = [],
       req_body = []\<rparr>)) = 500
   \<and> status_of (reply (gateway_proxy
      (\<lambda>rq. Inr \<lparr>r_status_code = 200, r_headers = [], r_text = ''<html>'', r_json = None\<rparr>)
      ''users'' ''42''
      \<lparr>req_method = ''GET'', url_path = ''/users/42'', url_query = [], req_headers = [],
       req_body = []\<rparr>)) \<noteq> 502
   \<and> map (\<lambda>rq. case await_obj
                     (\<lambda>rq. Inr \<lparr>r_status_code = 200, r_headers = [], r_text = ''<html>'',
                                r_json = None\<rparr>)
                     (CoroutineObj rq) of
                  Inl e \<Rightarrow> except_clauses e
                | Inr response \<Rightarrow> respond response)
       (created (gateway_proxy
          (\<lambda>rq. Inr \<lparr>r_status_code = 200, r_headers = [], r_text = ''<html>'', r_json = None\<rparr>)
          ''users'' ''42''
          \<lparr>req_method = ''GET'', url_path = ''/users/42'', url_query = [], req_headers = [],
           req_body = []\<rparr>))
     = [HTTPException 500 ''Internal Gateway Error'']"
  by (simp add: gateway_proxy_def SERVICES_def client_request_def respond_def json_response_def)

end
